theory Spec2Isabelle
  imports Complex_Main "HOL-Library.Sublist"
begin

section \<open>Strings\<close>

text \<open>
  Python strings are modelled as \<^typ>\<open>string\<close>: sequences of characters with code points
  below 256. Text with characters beyond that range is outside the model.
  \<^verbatim>\<open>str.isspace\<close>, on which \<^verbatim>\<open>str.split()\<close> and \<^verbatim>\<open>str.strip()\<close> rest, holds below 256
  for the code points 9 to 13, 28 to 32, 133 and 160.
\<close>

definition isspace :: "char \<Rightarrow> bool" where
  "isspace c =
     (let n = (of_char c :: nat)
      in (9 \<le> n \<and> n \<le> 13) \<or> (28 \<le> n \<and> n \<le> 32) \<or> n = 133 \<or> n = 160)"

text \<open>
  \<^verbatim>\<open>text.split()\<close>: the maximal runs of non-whitespace characters, in order. The scan keeps
  the word read so far in \<open>cur\<close>.
\<close>

fun split_from :: "string \<Rightarrow> string \<Rightarrow> string list" where
  "split_from cur [] = (if cur = [] then [] else [cur])"
| "split_from cur (c # cs) =
     (if isspace c then (if cur = [] then split_from [] cs else cur # split_from [] cs)
      else split_from (cur @ [c]) cs)"

definition str_split :: "string \<Rightarrow> string list" where
  "str_split text = split_from [] text"

text \<open>\<^verbatim>\<open>s.strip()\<close>: whitespace removed at both ends.\<close>

definition str_strip :: "string \<Rightarrow> string" where
  "str_strip s = rev (dropWhile isspace (rev (dropWhile isspace s)))"

text \<open>\<^verbatim>\<open>sep.join(xs)\<close>.\<close>

fun str_join :: "string \<Rightarrow> string list \<Rightarrow> string" where
  "str_join sep [] = []"
| "str_join sep [x] = x"
| "str_join sep (x # y # ys) = x @ sep @ str_join sep (y # ys)"

text \<open>
  \<^verbatim>\<open>s.upper()\<close> on the ASCII letters; the other characters of the model are left as they
  are (Python maps some of them to code points beyond 255, none of them to an ASCII letter
  or to the underscore).
\<close>

definition to_upper :: "char \<Rightarrow> char" where
  "to_upper c =
     (let n = (of_char c :: nat) in if 97 \<le> n \<and> n \<le> 122 then char_of (n - 32) else c)"

definition str_upper :: "string \<Rightarrow> string" where
  "str_upper s = map to_upper s"

definition newline :: string where
  "newline = [CHR 0x0A]"

section \<open>Errors\<close>

text \<open>
  Every exception that leaves a function is a value. \<open>SystemExit msg\<close> is
  \<^verbatim>\<open>sys.exit(msg)\<close>: the message goes to standard error and the exit status is 1.
  \<open>SystemExit_no_image media_type apod_date\<close> is the \<^verbatim>\<open>SystemExit\<close> of \<^verbatim>\<open>main\<close> whose message
  is formatted from the two fields. \<open>OtherException e\<close> is any exception that is not an
  \<^verbatim>\<open>HTTPError\<close>, with its text.
\<close>

datatype error =
    SystemExit string
  | SystemExit_no_image "string option" "string option"
  | HTTPError nat
  | OtherException string
  | IndexError
  | AssertionError

section \<open>Text wrapping\<close>

text \<open>
  \<^verbatim>\<open>text_wrap(text, font, writing, max_width, max_height)\<close>. The font and the drawing context
  are used only to measure: they are the function \<open>dims\<close>, from a string to its width and
  height (\<^verbatim>\<open>_dims\<close>). The measure is any linear order (integers in older Pillow releases,
  floats in newer ones).

  \<open>lines\<close> is a list of lines, each a list of words. The list operations of the source
  that raise \<^verbatim>\<open>IndexError\<close> on an empty list do so here.
\<close>

definition composed :: "string list list \<Rightarrow> string" where
  "composed lines = str_join newline (map (str_join '' '') (filter (\<lambda>line. line \<noteq> []) lines))"

text \<open>\<^verbatim>\<open>lines[-1].append(word)\<close>\<close>

definition append_word :: "string list list \<Rightarrow> string \<Rightarrow> error + string list list" where
  "append_word lines word =
     (if lines = [] then Inl IndexError else Inr (butlast lines @ [last lines @ [word]]))"

text \<open>\<^verbatim>\<open>lines[-1].pop()\<close>: the word removed and the lines left.\<close>

definition pop_word :: "string list list \<Rightarrow> error + (string \<times> string list list)" where
  "pop_word lines =
     (if lines = [] then Inl IndexError
      else if last lines = [] then Inl IndexError
      else Inr (last (last lines), butlast lines @ [butlast (last lines)]))"

text \<open>\<^verbatim>\<open>lines.pop()\<close>\<close>

definition pop_line :: "string list list \<Rightarrow> error + string list list" where
  "pop_line lines = (if lines = [] then Inl IndexError else Inr (butlast lines))"

text \<open>\<^verbatim>\<open>lines[-1][-1] += '...'\<close>\<close>

definition add_marker :: "string list list \<Rightarrow> error + string list list" where
  "add_marker lines =
     (if lines = [] then Inl IndexError
      else if last lines = [] then Inl IndexError
      else Inr (butlast lines @ [butlast (last lines) @ [last (last lines) @ ''...'']]))"

text \<open>
  The inner \<^verbatim>\<open>while True\<close> loop: measure; stop when the width fits or one word is left on
  the last line; otherwise drop the last word of the last line and mark the new last word.
\<close>

function shorten ::
  "(string \<Rightarrow> 'a::linorder \<times> 'a) \<Rightarrow> 'a \<Rightarrow> string list list \<Rightarrow> error + string list list" where
  "shorten dims max_width lines =
     (if fst (dims (composed lines)) \<le> max_width then Inr lines
      else if lines = [] then Inl IndexError
      else if length (last lines) = 1 then Inr lines
      else (case pop_word lines of
              Inl e \<Rightarrow> Inl e
            | Inr (_, lines1) \<Rightarrow>
                (case add_marker lines1 of
                   Inl e \<Rightarrow> Inl e
                 | Inr lines2 \<Rightarrow> shorten dims max_width lines2)))"
  by pat_completeness auto
termination
proof (relation "measure (\<lambda>(dims, max_width, lines). length (last lines))")
  fix dims :: "string \<Rightarrow> 'a \<times> 'a" and max_width :: 'a
    and lines lines1 lines2 :: "string list list" and x :: "string \<times> string list list"
    and moved :: string
  assume one: "length (last lines) \<noteq> 1"
    and pop: "pop_word lines = Inr x" "(moved, lines1) = x"
    and mark: "add_marker lines1 = Inr lines2"
  from pop have ne: "last lines \<noteq> []" and l1: "lines1 = butlast lines @ [butlast (last lines)]"
    by (auto simp: pop_word_def split: if_splits)
  from mark l1 have l2: "last lines2 = butlast (butlast (last lines)) @ [last (butlast (last lines)) @ ''...'']"
    and ne1: "butlast (last lines) \<noteq> []"
    by (auto simp: add_marker_def split: if_splits)
  from ne ne1 have "length (last lines2) < length (last lines)"
    unfolding l2 by (cases "last lines") auto
  then show "((dims, max_width, lines2), (dims, max_width, lines)) \<in> measure (\<lambda>(dims, max_width, lines). length (last lines))"
    by simp
qed simp

text \<open>
  The body of the \<^verbatim>\<open>for word in words\<close> loop. \<open>Next\<close> goes on with the next word, \<open>Break\<close>
  is the \<^verbatim>\<open>break\<close> of the capacity branch.
\<close>

datatype 'a step = Next 'a | Break 'a

definition wrap_step ::
  "(string \<Rightarrow> 'a::linorder \<times> 'a) \<Rightarrow> 'a \<Rightarrow> 'a \<Rightarrow> string list list \<Rightarrow> string
     \<Rightarrow> error + string list list step" where
  "wrap_step dims max_width max_height lines word =
     (case append_word lines word of
        Inl e \<Rightarrow> Inl e
      | Inr lines1 \<Rightarrow>
          if fst (dims (composed lines1)) > max_width then
            (case pop_word lines1 of
               Inl e \<Rightarrow> Inl e
             | Inr (moved, lines2) \<Rightarrow>
                 let lines3 = lines2 @ [[moved]] in
                 if snd (dims (composed lines3)) > max_height then
                   (case pop_line lines3 of
                      Inl e \<Rightarrow> Inl e
                    | Inr lines4 \<Rightarrow>
                        (case add_marker lines4 of
                           Inl e \<Rightarrow> Inl e
                         | Inr lines5 \<Rightarrow>
                             (case shorten dims max_width lines5 of
                                Inl e \<Rightarrow> Inl e
                              | Inr lines6 \<Rightarrow> Inr (Break lines6))))
                 else Inr (Next lines3))
          else Inr (Next lines1))"

fun wrap_words ::
  "(string \<Rightarrow> 'a::linorder \<times> 'a) \<Rightarrow> 'a \<Rightarrow> 'a \<Rightarrow> string list list \<Rightarrow> string list
     \<Rightarrow> error + string list list" where
  "wrap_words dims max_width max_height lines [] = Inr lines"
| "wrap_words dims max_width max_height lines (word # words) =
     (case wrap_step dims max_width max_height lines word of
        Inl e \<Rightarrow> Inl e
      | Inr (Break lines') \<Rightarrow> Inr lines'
      | Inr (Next lines') \<Rightarrow> wrap_words dims max_width max_height lines' words)"

definition text_wrap ::
  "string \<Rightarrow> (string \<Rightarrow> 'a::linorder \<times> 'a) \<Rightarrow> 'a \<Rightarrow> 'a \<Rightarrow> error + string" where
  "text_wrap text dims max_width max_height =
     (case wrap_words dims max_width max_height [[]] (str_split text) of
        Inl e \<Rightarrow> Inl e
      | Inr lines \<Rightarrow> Inr (str_join newline (map (str_join '' '') lines)))"

text \<open>
  Whether the loop over the words is left through the capacity branch (the \<^verbatim>\<open>break\<close>),
  dropping the rest of the words.
\<close>

fun truncated ::
  "(string \<Rightarrow> 'a::linorder \<times> 'a) \<Rightarrow> 'a \<Rightarrow> 'a \<Rightarrow> string list list \<Rightarrow> string list \<Rightarrow> bool" where
  "truncated dims max_width max_height lines [] = False"
| "truncated dims max_width max_height lines (word # words) =
     (case wrap_step dims max_width max_height lines word of
        Inl e \<Rightarrow> False
      | Inr (Break lines') \<Rightarrow> True
      | Inr (Next lines') \<Rightarrow> truncated dims max_width max_height lines' words)"

section \<open>Credential resolution\<close>

definition KEY_REQUIRED :: string where
  "KEY_REQUIRED =
     ''NASA API key is required. Re-run the installer to save your key, or pass --api-key/ NASA_APOD_KEY.''"

text \<open>
  What reading the key file gives: \<^verbatim>\<open>FileNotFoundError\<close>, another exception (which the
  source does not catch), or the content.
\<close>

datatype key_file = Missing | Unreadable string | Content string

text \<open>
  \<^verbatim>\<open>resolve_api_key(cli_value)\<close>, with the environment variable \<^verbatim>\<open>NASA_APOD_KEY\<close> (\<open>None\<close> when
  unset) and the key file as further arguments.
\<close>

definition resolve_api_key :: "string option \<Rightarrow> string option \<Rightarrow> key_file \<Rightarrow> error + string" where
  "resolve_api_key cli_value environ_key file =
     (let key = str_strip (case cli_value of None \<Rightarrow> [] | Some v \<Rightarrow> v) in
      if key \<noteq> [] then Inr key
      else
        let key = str_strip (case environ_key of None \<Rightarrow> [] | Some v \<Rightarrow> v) in
        if key \<noteq> [] then Inr key
        else
          (case file of
             Content c \<Rightarrow>
               (let key = str_strip c in
                if key \<noteq> [] then Inr key else Inl (SystemExit KEY_REQUIRED))
           | Missing \<Rightarrow> Inl (SystemExit KEY_REQUIRED)
           | Unreadable e \<Rightarrow> Inl (OtherException e)))"

section \<open>Effects\<close>

text \<open>
  What the program does to the world, in order: lines printed, sleeps, GET requests,
  text drawn on the image, directories and files written, the wallpaper set.
  A printed line whose text is formatted from a number keeps the number.
\<close>

datatype notice =
    Line string
  | HTTP_retry nat real
  | Error_retry string real

datatype font = Title_font | Desc_font

datatype event =
    Print notice
  | Sleep real
  | UrlOpen string
  | Draw_text "int \<times> int" string font
  | Make_dirs string
  | Save_image string
  | Set_wallpaper string

definition after :: "event list \<Rightarrow> 'r \<times> event list \<Rightarrow> 'r \<times> event list" where
  "after evs r = (fst r, evs @ snd r)"

section \<open>APOD API helpers\<close>

definition API_BASE :: string where
  "API_BASE = ''https://api.nasa.gov/planetary/apod''"

text \<open>
  \<^verbatim>\<open>build_apod_url\<close>. The percent-encoding of \<^verbatim>\<open>urllib.parse.urlencode\<close> is the parameter
  \<open>quote_plus\<close>; the names and the value \<^verbatim>\<open>true\<close> consist of characters it leaves alone.
\<close>

definition build_apod_url :: "(string \<Rightarrow> string) \<Rightarrow> string \<Rightarrow> string" where
  "build_apod_url quote_plus api_key =
     API_BASE @ ''?'' @ ''api_key='' @ quote_plus api_key @ ''&'' @ ''thumbs=true''"

text \<open>
  The outcome of one pass through the \<^verbatim>\<open>try\<close> block of \<^verbatim>\<open>fetch_json\<close>: the parsed JSON, an
  \<^verbatim>\<open>HTTPError\<close> with its status, or any other exception (a connection failure, a payload
  that is not JSON).
\<close>

datatype 'j attempt = Success 'j | HTTP_failure nat | Other_failure string

text \<open>
  The \<^verbatim>\<open>for attempt in range(retries)\<close> loop of \<^verbatim>\<open>fetch_json\<close>. \<open>responses attempt\<close> is what the
  GET of that attempt meets. A loop that runs out (\<open>retries = 0\<close>) reaches the
  \<^verbatim>\<open>assert False\<close>. The backoff is a real number: the rounding of floats is not modelled.
\<close>

fun fetch_loop ::
  "(nat \<Rightarrow> 'j attempt) \<Rightarrow> string \<Rightarrow> nat \<Rightarrow> real \<Rightarrow> nat list \<Rightarrow> (error + 'j) \<times> event list" where
  "fetch_loop responses url retries backoff [] = (Inl AssertionError, [])"
| "fetch_loop responses url retries backoff (attempt # rest) =
     after [UrlOpen url]
       (case responses attempt of
          Success payload \<Rightarrow> (Inr payload, [])
        | HTTP_failure code \<Rightarrow>
            if code \<in> {429, 500, 502, 503, 504} \<and> int attempt < int retries - 1 then
              (let sleep_for = backoff ^ attempt in
               after [Print (HTTP_retry code sleep_for), Sleep sleep_for]
                 (fetch_loop responses url retries backoff rest))
            else (Inl (HTTPError code), [])
        | Other_failure e \<Rightarrow>
            if int attempt < int retries - 1 then
              (let sleep_for = backoff ^ attempt in
               after [Print (Error_retry e sleep_for), Sleep sleep_for]
                 (fetch_loop responses url retries backoff rest))
            else (Inl (OtherException e), []))"

definition fetch_json ::
  "(nat \<Rightarrow> 'j attempt) \<Rightarrow> string \<Rightarrow> nat \<Rightarrow> real \<Rightarrow> (error + 'j) \<times> event list" where
  "fetch_json responses url retries backoff =
     fetch_loop responses url retries backoff [0..<retries]"

text \<open>The defaults of the parameters: \<^verbatim>\<open>retries: int = 3, backoff: float = 1.5\<close>.\<close>

definition default_retries :: nat where
  "default_retries = 3"

definition default_backoff :: real where
  "default_backoff = 3 / 2"

definition sleeps :: "event list \<Rightarrow> real list" where
  "sleeps evs = concat (map (\<lambda>ev. case ev of Sleep d \<Rightarrow> [d] | _ \<Rightarrow> []) evs)"

definition requests :: "event list \<Rightarrow> string list" where
  "requests evs = concat (map (\<lambda>ev. case ev of UrlOpen u \<Rightarrow> [u] | _ \<Rightarrow> []) evs)"

definition prints :: "event list \<Rightarrow> notice list" where
  "prints evs = concat (map (\<lambda>ev. case ev of Print n \<Rightarrow> [n] | _ \<Rightarrow> []) evs)"

definition saved :: "event list \<Rightarrow> string list" where
  "saved evs = concat (map (\<lambda>ev. case ev of Save_image p \<Rightarrow> [p] | _ \<Rightarrow> []) evs)"

text \<open>
  The response is a mapping from field names to strings, as the API documents it.
  \<^verbatim>\<open>a or b\<close> on the results of \<^verbatim>\<open>dict.get\<close>: \<open>a\<close> when it is there and not empty, else \<open>b\<close>.
\<close>

type_synonym apod = "string \<rightharpoonup> string"

definition py_or :: "string option \<Rightarrow> string option \<Rightarrow> string option" where
  "py_or a b = (case a of None \<Rightarrow> b | Some s \<Rightarrow> if s \<noteq> [] then a else b)"

definition pick_image_url :: "apod \<Rightarrow> string option" where
  "pick_image_url apod =
     (if apod ''media_type'' = Some ''image'' then py_or (apod ''hdurl'') (apod ''url'')
      else py_or (apod ''thumbnail_url'') (apod ''url''))"

section \<open>Main flow\<close>

definition DEMO_KEY_REFUSED :: string where
  "DEMO_KEY_REFUSED = ''DEMO_KEY is not allowed. Please supply your personal NASA API key.''"

text \<open>
  \<^verbatim>\<open>_mask\<close>. The character U+2026 stands here in its UTF-8 encoding, as it is printed.
  \<^verbatim>\<open>k[-4:]\<close> is the last four characters.
\<close>

definition ellipsis :: string where
  "ellipsis = [CHR 0xE2, CHR 0x80, CHR 0xA6]"

definition mask :: "string \<Rightarrow> string" where
  "mask k = (if length k \<ge> 8 then take 4 k @ ellipsis @ drop (length k - 4) k else ''****'')"

definition fetching_line :: "string \<Rightarrow> string" where
  "fetching_line api_key = ''Fetching: '' @ API_BASE @ ''?api_key='' @ mask api_key @ ''&thumbs=true''"

text \<open>\<^verbatim>\<open>str(date.today())\<close>: the ISO form, zero-padded.\<close>

record date =
  year :: nat
  month :: nat
  day :: nat

definition digit :: "nat \<Rightarrow> char" where
  "digit n = char_of (48 + n mod 10)"

definition isoformat :: "date \<Rightarrow> string" where
  "isoformat d =
     [digit (year d div 1000), digit (year d div 100), digit (year d div 10), digit (year d)]
     @ ''-'' @ [digit (month d div 10), digit (month d)]
     @ ''-'' @ [digit (day d div 10), digit (day d)]"

text \<open>
  \<^verbatim>\<open>os.path.expanduser\<close> on the paths this program gives it, which start with \<^verbatim>\<open>~/\<close>: the
  home directory without its trailing slashes, then the rest of the path.
\<close>

definition expanduser :: "string \<Rightarrow> string \<Rightarrow> string" where
  "expanduser home path =
     (if take 2 path = ''~/'' then rev (dropWhile (\<lambda>c. c = CHR ''/'') (rev home)) @ drop 1 path
      else path)"

text \<open>
  \<^verbatim>\<open>int(n * f)\<close> for a dimension \<open>n\<close> of the image, in exact arithmetic (the rounding of the
  floating-point product is not modelled).
\<close>

definition scaled :: "int \<Rightarrow> real \<Rightarrow> int" where
  "scaled n f = \<lfloor>of_int n * f\<rfloor>"

text \<open>
  Everything outside the program that \<^verbatim>\<open>main\<close> reads: the command line, the environment,
  the key file, the API (per URL and attempt), the image behind a URL once downloaded and
  opened (its width and height, or the exception), the text measurement of the loaded
  description font at a size, the exception, if any, that creating the output directory and
  writing the output file raise, the clock, the home directory and the platform.
\<close>

record world =
  argv_api_key :: "string option"
  argv_no_wallpaper :: bool
  environ_key :: "string option"
  key_file_read :: key_file
  quote_plus :: "string \<Rightarrow> string"
  api_responses :: "string \<Rightarrow> nat \<Rightarrow> apod attempt"
  open_image :: "string \<Rightarrow> error + (int \<times> int)"
  text_dims :: "int \<Rightarrow> string \<Rightarrow> int \<times> int"
  save_failure :: "string \<Rightarrow> error option"
  today :: date
  home :: string
  platform :: string

text \<open>
  \<^verbatim>\<open>main\<close> is given in two parts. This is the second: from the fields of the response on.
\<close>

definition main_caption :: "world \<Rightarrow> apod \<Rightarrow> (error + unit) \<times> event list" where
  "main_caption w apod =
     (let title = (case apod ''title'' of None \<Rightarrow> ''Astronomy Picture of the Day'' | Some t \<Rightarrow> t);
          explanation = (case apod ''explanation'' of None \<Rightarrow> [] | Some e \<Rightarrow> e);
          media_type = apod ''media_type'';
          apod_date = apod ''date''
      in
      case pick_image_url apod of
        None \<Rightarrow> (Inl (SystemExit_no_image media_type apod_date), [])
      | Some image_url \<Rightarrow>
          if image_url = [] then (Inl (SystemExit_no_image media_type apod_date), [])
          else
            after [UrlOpen image_url]
              (case open_image w image_url of
                 Inl e \<Rightarrow> (Inl e, [])
               | Inr (width, height) \<Rightarrow>
                   (case text_wrap explanation (text_dims w (scaled width 0.015))
                           (scaled width 0.25) (scaled height 0.7) of
                      Inl e \<Rightarrow> (Inl e, [])
                    | Inr explanation_wrapped \<Rightarrow>
                        (let out_path =
                               expanduser (home w)
                                 (''~/Pictures/apod/'' @ isoformat (today w) @ ''.png'')
                         in
                         after
                           [Draw_text (scaled width 0.02, scaled height 0.05) title Title_font,
                            Draw_text (scaled width 0.05, scaled height 0.11)
                              explanation_wrapped Desc_font,
                            Make_dirs (expanduser (home w) ''~/Pictures/apod'')]
                           (case save_failure w out_path of
                              Some e \<Rightarrow> (Inl e, [])
                            | None \<Rightarrow>
                                (Inr (),
                                 [Save_image out_path,
                                  Print (Line (''Saved captioned image to: '' @ out_path))]
                                 @ (if \<not> argv_no_wallpaper w \<and> platform w = ''darwin'' then
                                      [Print (Line (''Setting the new desktop picture: '' @ out_path)),
                                       Set_wallpaper out_path]
                                    else if \<not> argv_no_wallpaper w then
                                      [Print (Line ''Non-macOS platform detected; skipping wallpaper step.'')]
                                    else [])))))))"

text \<open>\<^verbatim>\<open>main\<close> up to the response of the API.\<close>

definition main_fetch :: "world \<Rightarrow> (error + apod) \<times> event list" where
  "main_fetch w =
     (case resolve_api_key (argv_api_key w) (environ_key w) (key_file_read w) of
        Inl e \<Rightarrow> (Inl e, [])
      | Inr api_key \<Rightarrow>
          if str_upper api_key = ''DEMO_KEY'' then (Inl (SystemExit DEMO_KEY_REFUSED), [])
          else
            (let url = build_apod_url (quote_plus w) api_key in
             after [Print (Line (fetching_line api_key))]
               (fetch_json (api_responses w url) url default_retries default_backoff)))"

definition main :: "world \<Rightarrow> (error + unit) \<times> event list" where
  "main w =
     (case main_fetch w of
        (Inl e, evs) \<Rightarrow> (Inl e, evs)
      | (Inr apod, evs) \<Rightarrow> after evs (main_caption w apod))"

text \<open>
  The exit status of the process: 0 when \<^verbatim>\<open>main\<close> returns, 1 for \<^verbatim>\<open>sys.exit\<close> with a message and
  for an exception nobody catches.
\<close>

definition exit_status :: "error + unit \<Rightarrow> nat" where
  "exit_status r = (case r of Inr _ \<Rightarrow> 0 | Inl _ \<Rightarrow> 1)"

section \<open>Inputs to run the model on\<close>

text \<open>
  A measurement for a monospaced font: every character \<open>cw\<close> wide, every line \<open>ch\<close> high.
\<close>

fun text_lines :: "string \<Rightarrow> string list" where
  "text_lines [] = [[]]"
| "text_lines (c # cs) =
     (if c = CHR 0x0A then [] # text_lines cs
      else (case text_lines cs of [] \<Rightarrow> [[c]] | l # ls \<Rightarrow> (c # l) # ls))"

definition mono_dims :: "int \<Rightarrow> int \<Rightarrow> string \<Rightarrow> int \<times> int" where
  "mono_dims cw ch s =
     (cw * int (foldr max (map length (text_lines s)) 0), ch * int (length (text_lines s)))"

text \<open>
  A response of the API, and a world in which the key comes from the command line, the
  API answers at once with that response, the image is 1000 by 800 and the clock shows
  the day after the date of the response.
\<close>

definition apod_sample :: apod where
  "apod_sample =
     map_of [(''media_type'', ''image''), (''hdurl'', ''X''), (''title'', ''T''),
             (''explanation'', ''E''), (''date'', ''2024-01-01'')]"

definition world_sample :: world where
  "world_sample =
     \<lparr>argv_api_key = Some ''abcdefghijkl'', argv_no_wallpaper = False, environ_key = None,
      key_file_read = Missing, quote_plus = (\<lambda>s. s),
      api_responses = (\<lambda>url attempt. Success apod_sample),
      open_image = (\<lambda>url. Inr (1000, 800)), text_dims = (\<lambda>size. mono_dims 7 14),
      save_failure = (\<lambda>path. None), today = \<lparr>year = 2024, month = 1, day = 2\<rparr>,
      home = ''/Users/me'', platform = ''darwin''\<rparr>"

definition responses_503_503_ok :: "nat \<Rightarrow> apod attempt" where
  "responses_503_503_ok attempt = (if attempt < 2 then HTTP_failure 503 else Success apod_sample)"

definition responses_404 :: "nat \<Rightarrow> apod attempt" where
  "responses_404 attempt = HTTP_failure 404"

text \<open>
  Further responses (one with an empty \<open>hdurl\<close>, a video with its thumbnail, one with no
  candidate at all, one with neither title nor explanation) and worlds that differ from
  \<open>world_sample\<close> in the response of the API.
\<close>

definition apod_empty_hdurl :: apod where
  "apod_empty_hdurl =
     map_of [(''media_type'', ''image''), (''hdurl'', ''''), (''url'', ''U''),
             (''date'', ''2024-01-01'')]"

definition apod_video :: apod where
  "apod_video =
     map_of [(''media_type'', ''video''), (''thumbnail_url'', ''V''), (''url'', ''U''),
             (''date'', ''2024-01-01'')]"

definition apod_no_image :: apod where
  "apod_no_image = map_of [(''media_type'', ''video''), (''date'', ''2024-01-01'')]"

definition world_no_image :: world where
  "world_no_image = world_sample\<lparr>api_responses := (\<lambda>url attempt. Success apod_no_image)\<rparr>"

definition apod_bare :: apod where
  "apod_bare = map_of [(''media_type'', ''image''), (''url'', ''U''), (''date'', ''2024-01-01'')]"

definition world_bare :: world where
  "world_bare = world_sample\<lparr>api_responses := (\<lambda>url attempt. Success apod_bare)\<rparr>"

section \<open>Notions used in the properties\<close>

text \<open>
  The state of the wrapper once a word has been placed: there is a last line and it
  holds a word. \<open>marked\<close>: its last word ends with the truncation marker.
\<close>

definition filled :: "string list list \<Rightarrow> bool" where
  "filled lines \<longleftrightarrow> lines \<noteq> [] \<and> last lines \<noteq> []"

definition marked :: "string list list \<Rightarrow> bool" where
  "marked lines \<longleftrightarrow> filled lines \<and> suffix ''...'' (last (last lines))"

text \<open>
  A text whose words are separated by one space each, with no other whitespace and none
  at its ends.
\<close>

fun single_spaced :: "string \<Rightarrow> bool" where
  "single_spaced [] = True"
| "single_spaced [c] = (\<not> isspace c)"
| "single_spaced (c # d # cs) =
     (\<not> isspace c \<and>
      (if d = CHR '' '' then cs \<noteq> [] \<and> single_spaced cs else single_spaced (d # cs)))"

text \<open>An optional value, trimmed (nothing counts as the empty string); the content of the key file.\<close>

definition stripped :: "string option \<Rightarrow> string" where
  "stripped v = str_strip (case v of None \<Rightarrow> [] | Some s \<Rightarrow> s)"

definition file_content :: "key_file \<Rightarrow> string option" where
  "file_content kfile = (case kfile of Content c \<Rightarrow> Some c | _ \<Rightarrow> None)"

text \<open>\<open>c\<close> is \<open>d\<close> or, when \<open>d\<close> is an upper-case ASCII letter, its lower-case form.\<close>

definition case_variant :: "char \<Rightarrow> char \<Rightarrow> bool" where
  "case_variant c d \<longleftrightarrow>
     c = d \<or>
     (65 \<le> (of_char d :: nat) \<and> (of_char d :: nat) \<le> 90 \<and> (of_char c :: nat) = of_char d + 32)"

text \<open>
  What counts as true in \<^verbatim>\<open>a or b\<close> and \<^verbatim>\<open>if not image_url\<close>: a string that is there and not
  empty.
\<close>

definition truthy :: "string option \<Rightarrow> bool" where
  "truthy v = (case v of None \<Rightarrow> False | Some s \<Rightarrow> s \<noteq> [])"

text \<open>
  The path \<^verbatim>\<open>main\<close> saves to, and the events of its last step, as functions of the world.
\<close>

definition out_path :: "world \<Rightarrow> string" where
  "out_path w = expanduser (home w) (''~/Pictures/apod/'' @ isoformat (today w) @ ''.png'')"

definition wallpaper_events :: "world \<Rightarrow> event list" where
  "wallpaper_events w =
     (if \<not> argv_no_wallpaper w \<and> platform w = ''darwin'' then
        [Print (Line (''Setting the new desktop picture: '' @ out_path w)), Set_wallpaper (out_path w)]
      else if \<not> argv_no_wallpaper w then
        [Print (Line ''Non-macOS platform detected; skipping wallpaper step.'')]
      else [])"

text \<open>
  What \<open>mask\<close> may show of a key: its first four and last four characters when it has at
  least eight, nothing otherwise.
\<close>

definition visible :: "string \<Rightarrow> (string \<times> string) option" where
  "visible k = (if 8 \<le> length k then Some (take 4 k, drop (length k - 4) k) else None)"

section \<open>Properties of the text wrapper\<close>

lemma composed_initial [simp]: "composed [[w]] = w" "composed [[], [w]] = w" "composed [[]] = []"
  by (simp_all add: composed_def)

lemma wrap_step_initial:
  "wrap_step dims mw mh [[]] w =
     (if fst (dims w) > mw then (if snd (dims w) > mh then Inl IndexError else Inr (Next [[], [w]]))
      else Inr (Next [[w]]))"
  by (simp add: wrap_step_def append_word_def pop_word_def pop_line_def add_marker_def)

lemma wrap_step_filled:
  assumes "filled lines"
  shows "wrap_step dims mw mh lines w =
     (if fst (dims (composed (butlast lines @ [last lines @ [w]]))) > mw then
        (if snd (dims (composed (lines @ [[w]]))) > mh then
           (case shorten dims mw (butlast lines @ [butlast (last lines) @ [last (last lines) @ ''...'']]) of
              Inl e \<Rightarrow> Inl e | Inr l \<Rightarrow> Inr (Break l))
         else Inr (Next (lines @ [[w]])))
      else Inr (Next (butlast lines @ [last lines @ [w]])))"
  using assms
  by (simp add: filled_def wrap_step_def append_word_def pop_word_def pop_line_def add_marker_def)

lemma shorten_marked:
  "marked lines \<Longrightarrow>
     \<exists>r. shorten dims mw lines = Inr r \<and> marked r \<and>
         (fst (dims (composed r)) \<le> mw \<or> length (last r) = 1)"
proof (induction dims mw lines rule: shorten.induct)
  case (1 dims mw lines)
  show ?case
  proof (cases "fst (dims (composed lines)) \<le> mw \<or> length (last lines) = 1")
    case True
    with "1.prems" show ?thesis
      by (auto simp: marked_def filled_def)
  next
    case False
    from "1.prems" have ne: "lines \<noteq> []" "last lines \<noteq> []"
      by (simp_all add: marked_def filled_def)
    define l1 where "l1 = butlast lines @ [butlast (last lines)]"
    define l2 where "l2 = butlast lines @ [butlast (butlast (last lines)) @ [last (butlast (last lines)) @ ''...'']]"
    from False ne have two: "butlast (last lines) \<noteq> []"
      by (cases "last lines") (auto split: if_splits)
    have pop: "pop_word lines = Inr (last (last lines), l1)"
      using ne by (simp add: pop_word_def l1_def)
    have mark: "add_marker l1 = Inr l2"
      using two by (simp add: add_marker_def l1_def l2_def)
    have "marked l2"
      by (simp add: marked_def filled_def l2_def suffix_def)
    with "1.IH" [OF _ _ _ pop refl mark] False ne
    obtain r where "shorten dims mw l2 = Inr r" "marked r"
      "fst (dims (composed r)) \<le> mw \<or> length (last r) = 1"
      by auto
    moreover have "shorten dims mw lines = shorten dims mw l2"
      using False ne pop mark by (subst shorten.simps) simp
    ultimately show ?thesis by auto
  qed
qed

lemma add_marker_marked:
  "filled lines \<Longrightarrow> marked (butlast lines @ [butlast (last lines) @ [last (last lines) @ ''...'']])"
  by (simp add: marked_def filled_def suffix_def)

lemma wrap_step_filled_cases:
  assumes "filled lines"
  shows "(\<exists>l. wrap_step dims mw mh lines w = Inr (Next l) \<and> filled l) \<or>
         (\<exists>l. wrap_step dims mw mh lines w = Inr (Break l) \<and> marked l \<and>
              (fst (dims (composed l)) \<le> mw \<or> length (last l) = 1))"
proof -
  obtain r where "shorten dims mw (butlast lines @ [butlast (last lines) @ [last (last lines) @ ''...'']]) = Inr r"
    "marked r" "fst (dims (composed r)) \<le> mw \<or> length (last r) = 1"
    using shorten_marked [OF add_marker_marked [OF assms]] by blast
  then show ?thesis
    using assms by (auto simp: wrap_step_filled filled_def)
qed

lemma wrap_words_filled:
  "filled lines \<Longrightarrow>
     \<exists>r. wrap_words dims mw mh lines ws = Inr r \<and> filled r \<and>
         (truncated dims mw mh lines ws \<longrightarrow>
            marked r \<and> (fst (dims (composed r)) \<le> mw \<or> length (last r) = 1))"
proof (induction ws arbitrary: lines)
  case Nil
  then show ?case by simp
next
  case (Cons w ws)
  from wrap_step_filled_cases [OF Cons.prems, of dims mw mh w]
  consider l where "wrap_step dims mw mh lines w = Inr (Next l)" "filled l"
    | l where "wrap_step dims mw mh lines w = Inr (Break l)" "marked l"
        "fst (dims (composed l)) \<le> mw \<or> length (last l) = 1"
    by blast
  then show ?case
  proof cases
    case 1
    with Cons.IH [of l] show ?thesis by simp
  next
    case 2
    then show ?thesis by (simp add: marked_def)
  qed
qed

lemma wrap_words_initial:
  "wrap_words dims mw mh [[]] (w # ws) =
     (if fst (dims w) > mw then
        (if snd (dims w) > mh then Inl IndexError else wrap_words dims mw mh [[], [w]] ws)
      else wrap_words dims mw mh [[w]] ws)"
  by (simp add: wrap_step_initial)

lemma truncated_initial:
  "truncated dims mw mh [[]] (w # ws) =
     (if fst (dims w) > mw then
        (if snd (dims w) > mh then False else truncated dims mw mh [[], [w]] ws)
      else truncated dims mw mh [[w]] ws)"
  by (simp add: wrap_step_initial)

lemma suffix_str_join:
  "xs \<noteq> [] \<Longrightarrow> suffix (last xs) (str_join sep xs)"
  by (induction sep xs rule: str_join.induct) (auto simp: suffix_append)

lemma marked_joined:
  assumes "marked lines"
  shows "suffix ''...'' (str_join newline (map (str_join '' '') lines))"
proof -
  from assms have ne: "lines \<noteq> []" "last lines \<noteq> []" and suf: "suffix ''...'' (last (last lines))"
    by (simp_all add: marked_def filled_def)
  have "suffix (last (last lines)) (str_join '' '' (last lines))"
    using ne by (simp add: suffix_str_join)
  moreover have "suffix (str_join '' '' (last lines)) (str_join newline (map (str_join '' '') lines))"
    using suffix_str_join [of "map (str_join '' '') lines" newline] ne by (simp add: last_map)
  ultimately show ?thesis using suf by (meson suffix_order.trans)
qed

lemma text_wrap_raises_iff:
  "text_wrap text dims mw mh = Inl e \<longleftrightarrow>
     e = IndexError \<and> (\<exists>w ws. str_split text = w # ws \<and> fst (dims w) > mw \<and> snd (dims w) > mh)"
proof (cases "str_split text")
  case Nil
  then show ?thesis by (simp add: text_wrap_def)
next
  case (Cons w ws)
  define l0 where "l0 = (if fst (dims w) > mw then [[], [w]] else [[w]])"
  have f: "filled l0" by (simp add: l0_def filled_def)
  from wrap_words_filled [OF f, of dims mw mh ws]
  obtain r where r: "wrap_words dims mw mh l0 ws = Inr r" by auto
  show ?thesis
    using Cons r by (auto simp: text_wrap_def wrap_words_initial l0_def simp del: wrap_words.simps split: if_splits)
qed

lemma str_join_Cons:
  "str_join sep (x # xs) = (if xs = [] then x else x @ sep @ str_join sep xs)"
  by (cases xs) simp_all

lemma set_str_join: "set (str_join sep xs) \<subseteq> set sep \<union> \<Union> (set ` set xs)"
  by (induction sep xs rule: str_join.induct) auto

lemma split_from_nonempty:
  "cur \<noteq> [] \<or> (\<exists>c \<in> set s. \<not> isspace c) \<Longrightarrow> split_from cur s \<noteq> []"
  by (induction s arbitrary: cur) auto

lemma split_from_words:
  "\<forall>c \<in> set cur. \<not> isspace c \<Longrightarrow> \<forall>w \<in> set (split_from cur s). \<forall>c \<in> set w. \<not> isspace c"
proof (induction s arbitrary: cur)
  case Nil
  then show ?case by simp
next
  case (Cons a s)
  show ?case
  proof (cases "isspace a")
    case True
    with Cons.IH [of "[]"] Cons.prems show ?thesis by simp
  next
    case False
    with Cons.IH [of "cur @ [a]"] Cons.prems show ?thesis by simp
  qed
qed

lemma single_spaced_hd: "single_spaced s \<Longrightarrow> s \<noteq> [] \<Longrightarrow> \<not> isspace (hd s)"
  by (cases s rule: single_spaced.cases) auto

lemma join_split_from:
  "single_spaced s \<Longrightarrow> str_join '' '' (split_from cur s) = cur @ s"
proof (induction s arbitrary: cur rule: single_spaced.induct)
  case 1
  then show ?case by simp
next
  case (2 c)
  then show ?case by simp
next
  case (3 c d cs)
  show ?case
  proof (cases "d = CHR '' ''")
    case True
    with "3.prems" have cs: "cs \<noteq> []" "single_spaced cs" and c: "\<not> isspace c" by simp_all
    have sp: "isspace d" using True by (simp add: isspace_def)
    have "\<not> isspace (hd cs)" using cs by (simp add: single_spaced_hd)
    then have "split_from [] cs \<noteq> []"
      using cs(1) by (intro split_from_nonempty) (cases cs, auto)
    moreover have "str_join '' '' (split_from [] cs) = cs"
      using "3.IH"(1) [OF True, of "[]"] cs by simp
    ultimately show ?thesis
      using True c sp by (simp add: str_join_Cons)
  next
    case False
    with "3.prems" have "single_spaced (d # cs)" and c: "\<not> isspace c" by simp_all
    with "3.IH"(2) [OF False, of "cur @ [c]"] show ?thesis by simp
  qed
qed

lemma composed_one_line: "line \<noteq> [] \<Longrightarrow> composed [line] = str_join '' '' line"
  by (simp add: composed_def)

lemma wrap_step_fit:
  "fst (dims (str_join '' '' (cur @ [w]))) \<le> mw \<Longrightarrow>
     wrap_step dims mw mh [cur] w = Inr (Next [cur @ [w]])"
  by (simp add: wrap_step_def append_word_def composed_one_line not_less [symmetric])

lemma wrap_words_fit:
  "(\<And>k. 0 < k \<Longrightarrow> k \<le> length ws \<Longrightarrow> fst (dims (str_join '' '' (cur @ take k ws))) \<le> mw)
     \<Longrightarrow> wrap_words dims mw mh [cur] ws = Inr [cur @ ws]"
proof (induction ws arbitrary: cur)
  case Nil
  then show ?case by simp
next
  case (Cons w ws)
  from Cons.prems [of 1] have "fst (dims (str_join '' '' (cur @ [w]))) \<le> mw" by simp
  then have step: "wrap_step dims mw mh [cur] w = Inr (Next [cur @ [w]])"
    by (rule wrap_step_fit)
  have "wrap_words dims mw mh [cur @ [w]] ws = Inr [(cur @ [w]) @ ws]"
  proof (rule Cons.IH)
    fix k assume "0 < k" "k \<le> length ws"
    with Cons.prems [of "Suc k"] show "fst (dims (str_join '' '' ((cur @ [w]) @ take k ws))) \<le> mw"
      by simp
  qed
  with step show ?case by simp
qed

text \<open>
  C1, as the code has it. When the loop over the words is left through the capacity
  branch (a word overflows the width and, moved to a line of its own, takes the text
  over the height), \<open>text_wrap\<close> returns, the string returned ends with the truncation
  marker \<open>...\<close>, and the text composed of the lines returned measures at most the
  maximal width unless its last line has been cut down to a single word.
\<close>

theorem text_wrap_truncated:
  assumes "truncated dims max_width max_height [[]] (str_split text)"
  shows "\<exists>lines. wrap_words dims max_width max_height [[]] (str_split text) = Inr lines \<and>
           text_wrap text dims max_width max_height = Inr (str_join newline (map (str_join '' '') lines)) \<and>
           suffix ''...'' (str_join newline (map (str_join '' '') lines)) \<and>
           (fst (dims (composed lines)) \<le> max_width \<or> length (last lines) = 1)"
proof -
  obtain w ws where split: "str_split text = w # ws"
    using assms by (cases "str_split text") simp_all
  define l0 where "l0 = (if fst (dims w) > max_width then [[], [w]] else [[w]])"
  have f: "filled l0" by (simp add: l0_def filled_def)
  from assms split have ok: "\<not> (fst (dims w) > max_width \<and> snd (dims w) > max_height)"
    and tr: "truncated dims max_width max_height l0 ws"
    by (auto simp: truncated_initial l0_def simp del: truncated.simps split: if_splits)
  from ok have eq: "wrap_words dims max_width max_height [[]] (w # ws) = wrap_words dims max_width max_height l0 ws"
    by (auto simp: wrap_words_initial l0_def simp del: wrap_words.simps)
  from wrap_words_filled [OF f, of dims max_width max_height ws] tr
  obtain r where r: "wrap_words dims max_width max_height l0 ws = Inr r" "marked r"
    "fst (dims (composed r)) \<le> max_width \<or> length (last r) = 1"
    by auto
  show ?thesis
    using r eq split marked_joined [OF r(2)] by (auto simp: text_wrap_def)
qed

theorem text_wrap_truncated_witness:
  "truncated (mono_dims 7 14) 140 20 [[]] (str_split ''The Andromeda galaxy is near'') \<and>
   text_wrap ''The Andromeda galaxy is near'' (mono_dims 7 14) 140 20 = Inr ''The Andromeda...'' \<and>
   suffix ''...'' ''The Andromeda...''"
proof -
  have h: "truncated (mono_dims 7 14) 140 20 [[]] (str_split ''The Andromeda galaxy is near'')"
    by code_simp
  have r: "text_wrap ''The Andromeda galaxy is near'' (mono_dims 7 14) 140 20 = Inr ''The Andromeda...''"
    by code_simp
  from text_wrap_truncated [OF h] obtain lines where
    "text_wrap ''The Andromeda galaxy is near'' (mono_dims 7 14) 140 20 =
       Inr (str_join newline (map (str_join '' '') lines))"
    "suffix ''...'' (str_join newline (map (str_join '' '') lines))"
    by blast
  with r have "suffix ''...'' ''The Andromeda...''" by simp
  with h r show ?thesis by simp
qed

text \<open>
  C1 as stated fails: the text \<open>Andromeda galaxy\<close> measures 112 by 14 in a font of 7 by 14,
  beyond a box of 80 by 10, and the line returned, \<open>Andromeda...\<close>, is 84 wide.
\<close>

theorem text_wrap_one_word_overflow_counterexample:
  "fst (mono_dims 7 14 ''Andromeda galaxy'') > 80 \<and>
   snd (mono_dims 7 14 ''Andromeda galaxy'') > 10 \<and>
   text_wrap ''Andromeda galaxy'' (mono_dims 7 14) 80 10 = Inr ''Andromeda...'' \<and>
   fst (mono_dims 7 14 ''Andromeda...'') > 80"
  by code_simp

text \<open>
  C2, as the code has it. When every non-empty prefix of the words of the text, joined by
  single spaces, measures at most the maximal width, \<open>text_wrap\<close> returns the words joined by
  single spaces: no line break is inserted, and a text whose words are already separated
  by single spaces comes back unchanged.
\<close>

theorem text_wrap_fits:
  assumes "\<forall>k. 0 < k \<and> k \<le> length (str_split text) \<longrightarrow>
             fst (dims (str_join '' '' (take k (str_split text)))) \<le> max_width"
  shows "text_wrap text dims max_width max_height = Inr (str_join '' '' (str_split text)) \<and>
         CHR 0x0A \<notin> set (str_join '' '' (str_split text)) \<and>
         (single_spaced text \<longrightarrow> str_join '' '' (str_split text) = text)"
proof (intro conjI impI)
  have "wrap_words dims max_width max_height [[]] (str_split text) = Inr [[] @ str_split text]"
    using assms by (intro wrap_words_fit) simp
  then show "text_wrap text dims max_width max_height = Inr (str_join '' '' (str_split text))"
    by (simp add: text_wrap_def)
next
  show "CHR 0x0A \<notin> set (str_join '' '' (str_split text))"
  proof
    assume "CHR 0x0A \<in> set (str_join '' '' (str_split text))"
    with set_str_join [where sep = "'' ''" and xs = "str_split text"]
    obtain w where "w \<in> set (str_split text)" "CHR 0x0A \<in> set w" by auto
    then have "\<not> isspace (CHR 0x0A)"
      using split_from_words [where cur = "[]" and s = "text"] by (auto simp: str_split_def)
    then show False by (simp add: isspace_def)
  qed
next
  assume "single_spaced text"
  then show "str_join '' '' (str_split text) = text"
    by (simp add: str_split_def join_split_from)
qed

theorem text_wrap_fits_witness:
  "text_wrap ''Orion Nebula'' (mono_dims 7 14) 100 10 = Inr ''Orion Nebula''"
proof -
  have split: "str_split ''Orion Nebula'' = [''Orion'', ''Nebula'']"
    by code_simp
  have "\<forall>k. 0 < k \<and> k \<le> length (str_split ''Orion Nebula'') \<longrightarrow>
          fst (mono_dims 7 14 (str_join '' '' (take k (str_split ''Orion Nebula'')))) \<le> 100"
  proof (intro allI impI)
    fix k :: nat
    assume "0 < k \<and> k \<le> length (str_split ''Orion Nebula'')"
    then have "k = 1 \<or> k = 2" by (auto simp: split)
    then show "fst (mono_dims 7 14 (str_join '' '' (take k (str_split ''Orion Nebula'')))) \<le> 100"
      by (auto simp: split mono_dims_def)
  qed
  from text_wrap_fits [OF this, of 10] show ?thesis
    by (simp add: split)
qed

text \<open>
  C2 as stated fails: \<open>Orion  Nebula\<close>, with two spaces, is 91 wide in a box of 100 and
  comes back with one space.
\<close>

theorem text_wrap_whitespace_counterexample:
  "fst (mono_dims 7 14 ''Orion  Nebula'') < 100 \<and>
   text_wrap ''Orion  Nebula'' (mono_dims 7 14) 100 10 = Inr ''Orion Nebula'' \<and>
   ''Orion Nebula'' \<noteq> ''Orion  Nebula''"
  by code_simp

text \<open>
  C3 fails on the code. The first word \<open>Andromeda\<close> is 63 wide and 14 high in a font of 7 by
  14, beyond a box of 40 by 10: the capacity branch removes the line just started and
  indexes the last word of the first line, which is empty, and \<open>text_wrap\<close> raises
  \<open>IndexError\<close>. (The lemma \<open>text_wrap_raises_iff\<close> above gives every input on which it raises.)
\<close>

theorem text_wrap_first_word_IndexError:
  "text_wrap ''Andromeda'' (mono_dims 7 14) 40 10 = Inl IndexError"
  by code_simp

section \<open>Properties of the fetcher\<close>

lemma attempts_default: "[0..<default_retries] = [0, 1, 2]"
  unfolding default_retries_def by code_simp

text \<open>
  C4. With the default attempt count: when the first two attempts meet status 503 and
  the third succeeds, \<open>fetch_json\<close> sleeps exactly twice, for \<open>backoff ^ 0\<close> and
  \<open>backoff ^ 1\<close> seconds, and returns the parsed JSON of the third attempt; when the first
  attempt meets status 404, the error leaves \<open>fetch_json\<close> after that one request, with no
  sleep.
\<close>

theorem fetch_json_retry_policy:
  "(responses 0 = HTTP_failure 503 \<and> responses 1 = HTTP_failure 503 \<and> responses 2 = Success payload \<longrightarrow>
      fetch_json responses url default_retries backoff =
        (Inr payload,
         [UrlOpen url, Print (HTTP_retry 503 (backoff ^ 0)), Sleep (backoff ^ 0),
          UrlOpen url, Print (HTTP_retry 503 (backoff ^ 1)), Sleep (backoff ^ 1),
          UrlOpen url]) \<and>
      sleeps (snd (fetch_json responses url default_retries backoff)) = [backoff ^ 0, backoff ^ 1]) \<and>
   (responses 0 = HTTP_failure 404 \<longrightarrow>
      fetch_json responses url default_retries backoff = (Inl (HTTPError 404), [UrlOpen url]) \<and>
      sleeps (snd (fetch_json responses url default_retries backoff)) = [] \<and>
      requests (snd (fetch_json responses url default_retries backoff)) = [url])"
  by (simp add: fetch_json_def attempts_default after_def sleeps_def requests_def)
     (simp add: default_retries_def)

theorem fetch_json_retry_policy_witness:
  "fetch_json responses_503_503_ok ''u'' default_retries default_backoff =
     (Inr apod_sample,
      [UrlOpen ''u'', Print (HTTP_retry 503 1), Sleep 1,
       UrlOpen ''u'', Print (HTTP_retry 503 (3 / 2)), Sleep (3 / 2), UrlOpen ''u'']) \<and>
   fetch_json responses_404 ''u'' default_retries default_backoff = (Inl (HTTPError 404), [UrlOpen ''u''])"
  using fetch_json_retry_policy [of responses_503_503_ok apod_sample "''u''" default_backoff]
    fetch_json_retry_policy [of responses_404 apod_sample "''u''" default_backoff]
  by (simp add: responses_503_503_ok_def responses_404_def default_backoff_def)

section \<open>Properties of the credential resolver\<close>

lemma str_strip_Nil: "str_strip [] = []"
  by (simp add: str_strip_def)

text \<open>
  C5, as the code has it. Every value is trimmed before it is looked at:
  \<open>resolve_api_key\<close> returns the trimmed command-line value when that is not empty, otherwise
  the trimmed environment value when that is not empty, otherwise the trimmed content of
  the key file when that is not empty; when none of them gives a non-empty trimmed value
  (the key file missing or blank), the process exits with status 1 and the guidance message.
\<close>

theorem resolve_api_key_precedence:
  "(stripped cli \<noteq> [] \<longrightarrow>
      resolve_api_key cli env kfile = Inr (stripped cli)) \<and>
   (stripped cli = [] \<and> stripped env \<noteq> [] \<longrightarrow>
      resolve_api_key cli env kfile = Inr (stripped env)) \<and>
   (stripped cli = [] \<and> stripped env = [] \<and> stripped (file_content kfile) \<noteq> [] \<longrightarrow>
      resolve_api_key cli env kfile = Inr (stripped (file_content kfile))) \<and>
   (stripped cli = [] \<and> stripped env = [] \<and> stripped (file_content kfile) = [] \<and>
    (\<forall>e. kfile \<noteq> Unreadable e) \<longrightarrow>
      resolve_api_key cli env kfile = Inl (SystemExit KEY_REQUIRED) \<and>
      exit_status (Inl (SystemExit KEY_REQUIRED)) = 1)"
  by (cases kfile)
     (simp_all add: resolve_api_key_def stripped_def file_content_def exit_status_def Let_def str_strip_Nil)

theorem resolve_api_key_precedence_witness:
  "resolve_api_key (Some '' CLIKEY '') (Some ''ENVKEY'') (Content ''FILEKEY'') = Inr ''CLIKEY'' \<and>
   resolve_api_key (Some ''  '') (Some ''ENVKEY '') (Content ''FILEKEY'') = Inr ''ENVKEY'' \<and>
   resolve_api_key None (Some []) (Content [CHR ''F'', CHR ''I'', CHR ''L'', CHR ''E'', CHR 0x0A]) = Inr ''FILE'' \<and>
   resolve_api_key None None Missing = Inl (SystemExit KEY_REQUIRED)"
  using resolve_api_key_precedence [of "Some '' CLIKEY ''" "Some ''ENVKEY''" "Content ''FILEKEY''"]
    resolve_api_key_precedence [of "Some ''  ''" "Some ''ENVKEY ''" "Content ''FILEKEY''"]
    resolve_api_key_precedence [of None "Some []" "Content [CHR ''F'', CHR ''I'', CHR ''L'', CHR ''E'', CHR 0x0A]"]
    resolve_api_key_precedence [of None None Missing]
  by (simp add: stripped_def file_content_def str_strip_def isspace_def)

text \<open>
  C5 as stated fails: a command-line value of one space is not empty, and the key returned
  is the one of the environment.
\<close>

theorem resolve_api_key_blank_cli_counterexample:
  "'' '' \<noteq> [] \<and> ''ENVKEY'' \<noteq> [] \<and>
   resolve_api_key (Some '' '') (Some ''ENVKEY'') Missing = Inr ''ENVKEY'' \<and>
   resolve_api_key (Some '' '') (Some ''ENVKEY'') Missing \<noteq> Inr '' ''"
  by (simp add: resolve_api_key_def str_strip_def isspace_def)

section \<open>Properties of the main flow\<close>

lemma to_upper_variant:
  assumes "case_variant c d" "to_upper d = d"
  shows "to_upper c = d"
proof (cases "c = d")
  case True
  with assms show ?thesis by simp
next
  case False
  with assms have d: "65 \<le> (of_char d :: nat)" "(of_char d :: nat) \<le> 90" "(of_char c :: nat) = of_char d + 32"
    by (simp_all add: case_variant_def)
  then have "to_upper c = char_of (of_char d :: nat)"
    by (simp add: to_upper_def)
  then show ?thesis by simp
qed

lemma str_upper_variant:
  "list_all2 case_variant k s \<Longrightarrow> \<forall>d \<in> set s. to_upper d = d \<Longrightarrow> str_upper k = s"
  by (induction k s rule: list_all2_induct) (simp_all add: str_upper_def to_upper_variant)

lemma str_upper_DEMO_KEY:
  "list_all2 case_variant k ''DEMO_KEY'' \<Longrightarrow> str_upper k = ''DEMO_KEY''"
  by (rule str_upper_variant) (simp_all add: to_upper_def)

text \<open>
  C6. Whatever the source of the key (command line, environment or key file): when the
  key resolved is \<open>DEMO_KEY\<close> in any letter case, \<open>main\<close> ends with \<^verbatim>\<open>sys.exit\<close> and the message
  that refuses the key, which is not the guidance message of a missing key; the exit status
  is 1 and no request has been made.
\<close>

theorem demo_key_refused:
  assumes "resolve_api_key (argv_api_key w) (environ_key w) (key_file_read w) = Inr k"
    and "list_all2 case_variant k ''DEMO_KEY''"
  shows "main w = (Inl (SystemExit DEMO_KEY_REFUSED), []) \<and>
         exit_status (fst (main w)) = 1 \<and>
         requests (snd (main w)) = [] \<and>
         DEMO_KEY_REFUSED \<noteq> KEY_REQUIRED"
  using assms str_upper_DEMO_KEY [OF assms(2)]
  by (simp add: main_def main_fetch_def exit_status_def requests_def DEMO_KEY_REFUSED_def KEY_REQUIRED_def)

theorem demo_key_refused_witness:
  "main (world_sample\<lparr>argv_api_key := Some ''demo_key''\<rparr>) = (Inl (SystemExit DEMO_KEY_REFUSED), []) \<and>
   main (world_sample\<lparr>argv_api_key := None, environ_key := Some ''Demo_Key''\<rparr>) = (Inl (SystemExit DEMO_KEY_REFUSED), []) \<and>
   main (world_sample\<lparr>argv_api_key := None, key_file_read := Content ''DEMO_KEY ''\<rparr>) = (Inl (SystemExit DEMO_KEY_REFUSED), [])"
  using demo_key_refused [of "world_sample\<lparr>argv_api_key := Some ''demo_key''\<rparr>" "''demo_key''"]
    demo_key_refused [of "world_sample\<lparr>argv_api_key := None, environ_key := Some ''Demo_Key''\<rparr>" "''Demo_Key''"]
    demo_key_refused [of "world_sample\<lparr>argv_api_key := None, key_file_read := Content ''DEMO_KEY ''\<rparr>" "''DEMO_KEY''"]
  by (simp add: world_sample_def resolve_api_key_def str_strip_def isspace_def case_variant_def)

lemma after_simps [simp]: "fst (after evs r) = fst r" "snd (after evs r) = evs @ snd r"
  by (simp_all add: after_def)

lemma saved_append [simp]: "saved (xs @ ys) = saved xs @ saved ys"
  by (simp add: saved_def)

lemma saved_simps [simp]:
  "saved [] = []"
  "saved (Save_image p # evs) = p # saved evs"
  "saved (Print n # evs) = saved evs"
  "saved (Sleep d # evs) = saved evs"
  "saved (UrlOpen u # evs) = saved evs"
  "saved (Draw_text pos t f # evs) = saved evs"
  "saved (Make_dirs q # evs) = saved evs"
  "saved (Set_wallpaper q # evs) = saved evs"
  by (simp_all add: saved_def)

lemma prints_simps [simp]:
  "prints [] = []"
  "prints (Print n # evs) = n # prints evs"
  "prints (Save_image p # evs) = prints evs"
  "prints (Sleep d # evs) = prints evs"
  "prints (UrlOpen u # evs) = prints evs"
  "prints (Draw_text pos t f # evs) = prints evs"
  "prints (Make_dirs q # evs) = prints evs"
  "prints (Set_wallpaper q # evs) = prints evs"
  by (simp_all add: prints_def)

lemma prints_append [simp]: "prints (xs @ ys) = prints xs @ prints ys"
  by (simp add: prints_def)

lemma requests_append [simp]: "requests (xs @ ys) = requests xs @ requests ys"
  by (simp add: requests_def)

lemma saved_fetch_loop: "saved (snd (fetch_loop responses url retries backoff attempts)) = []"
  by (induction attempts) (auto simp: Let_def split: attempt.splits)

lemma saved_main_fetch: "saved (snd (main_fetch w)) = []"
  by (auto simp: main_fetch_def fetch_json_def saved_fetch_loop Let_def split: sum.splits)

lemma main_caption_no_image:
  "\<not> truthy (pick_image_url apod) \<Longrightarrow>
     main_caption w apod = (Inl (SystemExit_no_image (apod ''media_type'') (apod ''date'')), [])"
  by (auto simp: main_caption_def truthy_def split: option.splits)

lemma main_caption_success:
  assumes "pick_image_url apod = Some image_url" "image_url \<noteq> []"
    and "open_image w image_url = Inr (width, height)"
    and "text_wrap (case apod ''explanation'' of None \<Rightarrow> [] | Some e \<Rightarrow> e)
           (text_dims w (scaled width 0.015)) (scaled width 0.25) (scaled height 0.7) = Inr wrapped"
    and "save_failure w (out_path w) = None"
  shows "main_caption w apod =
     (Inr (),
      [UrlOpen image_url,
       Draw_text (scaled width 0.02, scaled height 0.05)
         (case apod ''title'' of None \<Rightarrow> ''Astronomy Picture of the Day'' | Some t \<Rightarrow> t) Title_font,
       Draw_text (scaled width 0.05, scaled height 0.11) wrapped Desc_font,
       Make_dirs (expanduser (home w) ''~/Pictures/apod''),
       Save_image (out_path w),
       Print (Line (''Saved captioned image to: '' @ out_path w))] @ wallpaper_events w)"
  using assms unfolding out_path_def
  by (simp add: main_caption_def wallpaper_events_def out_path_def after_def Let_def)

lemma main_caption_saved:
  "fst (main_caption w apod) = Inr () \<Longrightarrow> saved (snd (main_caption w apod)) = [out_path w]"
  by (auto simp: main_caption_def out_path_def Let_def
           split: option.splits sum.splits if_splits)

lemma text_wrap_empty: "text_wrap [] dims max_width max_height = Inr []"
  by (simp add: text_wrap_def str_split_def)

lemma out_path_suffix: "suffix (''apod/'' @ isoformat (today w) @ ''.png'') (out_path w)"
  by (simp add: out_path_def expanduser_def suffix_def)

text \<open>
  C7, as the code has it. The choice depends on the response alone. For media type \<open>image\<close>
  it is \<open>hdurl\<close> when that is there and not empty, otherwise \<open>url\<close>; for any other media type
  it is \<open>thumbnail_url\<close> when that is there and not empty, otherwise \<open>url\<close>. With no candidate
  in the response the choice is none; and when the choice is none or empty, \<open>main\<close> ends with
  the \<^verbatim>\<open>SystemExit\<close> that carries the media type and the date, exit status 1.
\<close>

theorem pick_image_url_preference:
  "(apod ''media_type'' = Some ''image'' \<longrightarrow>
      pick_image_url apod = (if truthy (apod ''hdurl'') then apod ''hdurl'' else apod ''url'')) \<and>
   (apod ''media_type'' \<noteq> Some ''image'' \<longrightarrow>
      pick_image_url apod =
        (if truthy (apod ''thumbnail_url'') then apod ''thumbnail_url'' else apod ''url'')) \<and>
   (apod ''hdurl'' = None \<and> apod ''thumbnail_url'' = None \<and> apod ''url'' = None \<longrightarrow>
      pick_image_url apod = None) \<and>
   (main_fetch w = (Inr apod, evs) \<and> \<not> truthy (pick_image_url apod) \<longrightarrow>
      main w = (Inl (SystemExit_no_image (apod ''media_type'') (apod ''date'')), evs) \<and>
      exit_status (fst (main w)) = 1)"
  by (auto simp: pick_image_url_def py_or_def truthy_def main_def main_caption_no_image
        exit_status_def after_def split: option.splits)

lemma main_fetch_world_no_image:
  "main_fetch world_no_image =
     (Inr apod_no_image,
      [Print (Line (fetching_line ''abcdefghijkl'')),
       UrlOpen (build_apod_url (\<lambda>s. s) ''abcdefghijkl'')])"
  by (simp add: main_fetch_def world_no_image_def world_sample_def resolve_api_key_def
        str_strip_def isspace_def str_upper_def to_upper_def fetch_json_def attempts_default
        after_def Let_def)

theorem pick_image_url_preference_witness:
  "pick_image_url apod_sample = Some ''X'' \<and>
   pick_image_url apod_video = Some ''V'' \<and>
   pick_image_url apod_no_image = None \<and>
   fst (main world_no_image) = Inl (SystemExit_no_image (Some ''video'') (Some ''2024-01-01''))"
  using pick_image_url_preference [of apod_sample world_no_image "[]"]
    pick_image_url_preference [of apod_video world_no_image "[]"]
    pick_image_url_preference [of apod_no_image world_no_image
      "[Print (Line (fetching_line ''abcdefghijkl'')),
        UrlOpen (build_apod_url (\<lambda>s. s) ''abcdefghijkl'')]"]
    main_fetch_world_no_image
  by (simp add: apod_sample_def apod_video_def apod_no_image_def truthy_def)

text \<open>
  C7 as stated fails: with an \<open>hdurl\<close> that is there but empty, the choice is \<open>url\<close>.
\<close>

theorem pick_image_url_empty_hdurl_counterexample:
  "apod_empty_hdurl ''media_type'' = Some ''image'' \<and>
   apod_empty_hdurl ''hdurl'' = Some [] \<and>
   pick_image_url apod_empty_hdurl = Some ''U'' \<and>
   pick_image_url apod_empty_hdurl \<noteq> apod_empty_hdurl ''hdurl''"
  by (simp add: apod_empty_hdurl_def pick_image_url_def py_or_def)

text \<open>
  C8, as the code has it. When \<open>main\<close> returns, the image has been saved once, at
  \<^verbatim>\<open>~/Pictures/apod/<today>.png\<close> under the home directory, where \<open>today\<close> is the date of the
  clock in ISO form: the path ends with \<^verbatim>\<open>apod/<today>.png\<close>. The date field of the
  response has no part in it.
\<close>

theorem output_path_from_clock:
  "fst (main w) = Inr () \<longrightarrow>
     saved (snd (main w)) = [out_path w] \<and>
     out_path w = expanduser (home w) (''~/Pictures/apod/'' @ isoformat (today w) @ ''.png'') \<and>
     suffix (''apod/'' @ isoformat (today w) @ ''.png'') (out_path w)"
proof
  assume ok: "fst (main w) = Inr ()"
  obtain r evs where mf: "main_fetch w = (r, evs)" by (cases "main_fetch w")
  from ok mf obtain apod where r: "r = Inr apod"
    by (cases r) (simp_all add: main_def)
  from ok mf r have cap: "fst (main_caption w apod) = Inr ()"
    by (simp add: main_def)
  have "saved evs = []" using saved_main_fetch [of w] mf by simp
  with mf r main_caption_saved [OF cap] have "saved (snd (main w)) = [out_path w]"
    by (simp add: main_def)
  then show "saved (snd (main w)) = [out_path w] \<and>
     out_path w = expanduser (home w) (''~/Pictures/apod/'' @ isoformat (today w) @ ''.png'') \<and>
     suffix (''apod/'' @ isoformat (today w) @ ''.png'') (out_path w)"
    using out_path_suffix [of w] by (simp add: out_path_def)
qed

theorem output_path_from_clock_witness:
  "fst (main world_sample) = Inr () \<and>
   saved (snd (main world_sample)) = [''/Users/me/Pictures/apod/2024-01-02.png'']"
proof -
  have ok: "fst (main world_sample) = Inr ()" by code_simp
  have p: "out_path world_sample = ''/Users/me/Pictures/apod/2024-01-02.png''" by code_simp
  from output_path_from_clock [of world_sample] ok p show ?thesis by simp
qed

text \<open>
  C8 as stated fails: the response is dated 2024-01-01, the clock shows 2024-01-02, and
  the file is saved under the date of the clock.
\<close>

theorem output_path_not_response_date_counterexample:
  "fst (main_fetch world_sample) = Inr apod_sample \<and>
   apod_sample ''date'' = Some ''2024-01-01'' \<and>
   saved (snd (main world_sample)) = [''/Users/me/Pictures/apod/2024-01-02.png''] \<and>
   \<not> suffix ''apod/2024-01-01.png'' ''/Users/me/Pictures/apod/2024-01-02.png''"
proof -
  have a: "fst (main_fetch world_sample) = Inr apod_sample"
    by (simp add: main_fetch_def world_sample_def resolve_api_key_def
        str_strip_def isspace_def str_upper_def to_upper_def fetch_json_def attempts_default
        after_def Let_def)
  have b: "apod_sample ''date'' = Some ''2024-01-01''" by (simp add: apod_sample_def)
  have c: "saved (snd (main world_sample)) = [''/Users/me/Pictures/apod/2024-01-02.png'']"
    by code_simp
  have d: "\<not> suffix ''apod/2024-01-01.png'' ''/Users/me/Pictures/apod/2024-01-02.png''"
    by (simp add: suffix_to_prefix)
  from a b c d show ?thesis by simp
qed

lemma mask_visible: "visible k = visible k' \<Longrightarrow> mask k = mask k'"
  by (auto simp: visible_def mask_def split: if_splits)

lemma fetch_loop_url:
  "fst (fetch_loop responses url retries backoff attempts) =
     fst (fetch_loop responses url' retries backoff attempts) \<and>
   prints (snd (fetch_loop responses url retries backoff attempts)) =
     prints (snd (fetch_loop responses url' retries backoff attempts))"
  by (induction attempts) (auto simp: Let_def split: attempt.splits)

lemma main_caption_key_sources:
  "main_caption (w\<lparr>argv_api_key := c, environ_key := e, key_file_read := f\<rparr>) apod = main_caption w apod"
  by (simp add: main_caption_def Let_def
        cong: option.case_cong sum.case_cong if_cong)

lemma main_prints:
  assumes "resolve_api_key (argv_api_key w) (environ_key w) (key_file_read w) = Inr k"
    and "str_upper k \<noteq> ''DEMO_KEY''"
  shows "main_fetch w =
           after [Print (Line (fetching_line k))]
             (fetch_json (api_responses w (build_apod_url (quote_plus w) k))
                (build_apod_url (quote_plus w) k) default_retries default_backoff)"
  using assms by (simp add: main_fetch_def Let_def)

text \<open>
  C9. A key of fewer than eight characters is logged as \<open>****\<close>; a longer one as its first
  four characters, an ellipsis and its last four. The first line \<open>main\<close> prints is the
  outbound URL with the key masked so. And nothing \<open>main\<close> prints tells two keys apart that
  agree on what the mask may show: with the same answers of the API, the lines printed are
  the same.
\<close>

theorem key_masked_in_log:
  "(length k < 8 \<longrightarrow> mask k = ''****'') \<and>
   (8 \<le> length k \<longrightarrow> mask k = take 4 k @ ellipsis @ drop (length k - 4) k) \<and>
   (resolve_api_key (argv_api_key w) (environ_key w) (key_file_read w) = Inr k \<and>
    str_upper k \<noteq> ''DEMO_KEY'' \<longrightarrow>
      hd (prints (snd (main w))) =
        Line (''Fetching: '' @ API_BASE @ ''?api_key='' @ mask k @ ''&thumbs=true'')) \<and>
   (resolve_api_key (argv_api_key w) (environ_key w) (key_file_read w) = Inr k \<and>
    resolve_api_key c e f = Inr k' \<and>
    str_upper k \<noteq> ''DEMO_KEY'' \<and> str_upper k' \<noteq> ''DEMO_KEY'' \<and>
    visible k = visible k' \<and>
    api_responses w (build_apod_url (quote_plus w) k') =
      api_responses w (build_apod_url (quote_plus w) k) \<longrightarrow>
      prints (snd (main (w\<lparr>argv_api_key := c, environ_key := e, key_file_read := f\<rparr>))) =
        prints (snd (main w)))"
proof (intro conjI impI)
  show "length k < 8 \<Longrightarrow> mask k = ''****''" by (simp add: mask_def)
  show "8 \<le> length k \<Longrightarrow> mask k = take 4 k @ ellipsis @ drop (length k - 4) k"
    by (simp add: mask_def)
next
  assume "resolve_api_key (argv_api_key w) (environ_key w) (key_file_read w) = Inr k \<and>
    str_upper k \<noteq> ''DEMO_KEY''"
  then have mf: "main_fetch w =
           after [Print (Line (fetching_line k))]
             (fetch_json (api_responses w (build_apod_url (quote_plus w) k))
                (build_apod_url (quote_plus w) k) default_retries default_backoff)"
    by (simp add: main_prints)
  show "hd (prints (snd (main w))) =
        Line (''Fetching: '' @ API_BASE @ ''?api_key='' @ mask k @ ''&thumbs=true'')"
    unfolding main_def mf
    by (cases "fetch_json (api_responses w (build_apod_url (quote_plus w) k))
                (build_apod_url (quote_plus w) k) default_retries default_backoff")
       (auto simp: after_def fetching_line_def split: sum.splits)
next
  let ?w' = "w\<lparr>argv_api_key := c, environ_key := e, key_file_read := f\<rparr>"
  let ?url = "build_apod_url (quote_plus w) k"
  let ?url' = "build_apod_url (quote_plus w) k'"
  assume a: "resolve_api_key (argv_api_key w) (environ_key w) (key_file_read w) = Inr k \<and>
    resolve_api_key c e f = Inr k' \<and>
    str_upper k \<noteq> ''DEMO_KEY'' \<and> str_upper k' \<noteq> ''DEMO_KEY'' \<and>
    visible k = visible k' \<and>
    api_responses w (build_apod_url (quote_plus w) k') =
      api_responses w (build_apod_url (quote_plus w) k)"
  then have mf: "main_fetch w =
      after [Print (Line (fetching_line k))]
        (fetch_json (api_responses w ?url) ?url default_retries default_backoff)"
    by (simp add: main_prints)
  from a have mf': "main_fetch ?w' =
      after [Print (Line (fetching_line k'))]
        (fetch_json (api_responses w ?url) ?url' default_retries default_backoff)"
    using main_prints [of ?w' k'] by simp
  from a have line: "fetching_line k' = fetching_line k"
    using mask_visible [of k k'] by (simp add: fetching_line_def)
  obtain r evs where f1: "fetch_json (api_responses w ?url) ?url default_retries default_backoff = (r, evs)"
    by (cases "fetch_json (api_responses w ?url) ?url default_retries default_backoff")
  obtain r' evs' where f2: "fetch_json (api_responses w ?url) ?url' default_retries default_backoff = (r', evs')"
    by (cases "fetch_json (api_responses w ?url) ?url' default_retries default_backoff")
  from f1 f2 fetch_loop_url [of "api_responses w ?url" ?url default_retries default_backoff "[0..<default_retries]" ?url']
  have same: "r' = r" "prints evs' = prints evs"
    by (simp_all add: fetch_json_def)
  show "prints (snd (main ?w')) = prints (snd (main w))"
    unfolding main_def mf mf' f1 f2 line same
    by (cases r) (simp_all add: after_def same main_caption_key_sources)
qed

theorem key_masked_in_log_witness:
  "mask ''abc'' = ''****'' \<and>
   mask ''abcdefghijkl'' = ''abcd'' @ ellipsis @ ''ijkl'' \<and>
   hd (prints (snd (main world_sample))) =
     Line (''Fetching: https://api.nasa.gov/planetary/apod?api_key=abcd'' @ ellipsis @ ''ijkl&thumbs=true'') \<and>
   prints (snd (main (world_sample\<lparr>argv_api_key := None, environ_key := Some ''abcdXYZWVUijkl'',
                                   key_file_read := Missing\<rparr>))) =
     prints (snd (main world_sample))"
proof -
  have r1: "resolve_api_key (argv_api_key world_sample) (environ_key world_sample)
              (key_file_read world_sample) = Inr ''abcdefghijkl''"
    by (simp add: world_sample_def resolve_api_key_def str_strip_def isspace_def)
  have r2: "resolve_api_key None (Some ''abcdXYZWVUijkl'') Missing = Inr ''abcdXYZWVUijkl''"
    by (simp add: resolve_api_key_def str_strip_def isspace_def)
  have u1: "str_upper ''abcdefghijkl'' \<noteq> ''DEMO_KEY''"
    by (simp add: str_upper_def)
  have u2: "str_upper ''abcdXYZWVUijkl'' \<noteq> ''DEMO_KEY''"
    by (simp add: str_upper_def)
  have v: "visible ''abcdefghijkl'' = visible ''abcdXYZWVUijkl''"
    by (simp add: visible_def)
  have a: "api_responses world_sample (build_apod_url (quote_plus world_sample) ''abcdXYZWVUijkl'') =
      api_responses world_sample (build_apod_url (quote_plus world_sample) ''abcdefghijkl'')"
    by (simp add: world_sample_def)
  have m1: "mask ''abc'' = ''****''"
    using key_masked_in_log [of "''abc''" world_sample None None Missing "''abc''"] by simp
  show ?thesis
    using key_masked_in_log [of "''abcdefghijkl''" world_sample None "Some ''abcdXYZWVUijkl''" Missing
        "''abcdXYZWVUijkl''"] r1 r2 u1 u2 v a m1
    by (simp add: API_BASE_def)
qed

text \<open>
  C10. Once the response is fetched, its image URL chosen, the image opened and the
  output writable: a response without \<open>explanation\<close> has the empty string wrapped (which
  never fails) and drawn, and a response without \<open>title\<close> has the title
  \<open>Astronomy Picture of the Day\<close> drawn; in both cases \<open>main\<close> returns.
\<close>

theorem missing_title_and_explanation_defaults:
  assumes "main_fetch w = (Inr apod, evs)"
    and "pick_image_url apod = Some image_url" and "image_url \<noteq> []"
    and "open_image w image_url = Inr (width, height)"
    and "save_failure w (out_path w) = None"
  shows "(apod ''explanation'' = None \<longrightarrow>
            text_wrap [] (text_dims w (scaled width 0.015)) (scaled width 0.25) (scaled height 0.7) = Inr [] \<and>
            fst (main w) = Inr () \<and>
            Draw_text (scaled width 0.05, scaled height 0.11) [] Desc_font \<in> set (snd (main w))) \<and>
         (apod ''title'' = None \<and>
          text_wrap (case apod ''explanation'' of None \<Rightarrow> [] | Some e \<Rightarrow> e)
            (text_dims w (scaled width 0.015)) (scaled width 0.25) (scaled height 0.7) = Inr wrapped \<longrightarrow>
            fst (main w) = Inr () \<and>
            Draw_text (scaled width 0.02, scaled height 0.05) ''Astronomy Picture of the Day'' Title_font
              \<in> set (snd (main w)))"
proof (intro conjI impI)
  assume e: "apod ''explanation'' = None"
  have tw: "text_wrap (case apod ''explanation'' of None \<Rightarrow> [] | Some e \<Rightarrow> e)
           (text_dims w (scaled width 0.015)) (scaled width 0.25) (scaled height 0.7) = Inr []"
    using e by (simp add: text_wrap_empty)
  show "text_wrap [] (text_dims w (scaled width 0.015)) (scaled width 0.25) (scaled height 0.7) = Inr []"
    by (rule text_wrap_empty)
  from main_caption_success [OF assms(2,3,4) tw assms(5)] assms(1)
  show "fst (main w) = Inr ()"
    and "Draw_text (scaled width 0.05, scaled height 0.11) [] Desc_font \<in> set (snd (main w))"
    by (simp_all add: main_def)
next
  assume t: "apod ''title'' = None \<and>
          text_wrap (case apod ''explanation'' of None \<Rightarrow> [] | Some e \<Rightarrow> e)
            (text_dims w (scaled width 0.015)) (scaled width 0.25) (scaled height 0.7) = Inr wrapped"
  then have tw: "text_wrap (case apod ''explanation'' of None \<Rightarrow> [] | Some e \<Rightarrow> e)
            (text_dims w (scaled width 0.015)) (scaled width 0.25) (scaled height 0.7) = Inr wrapped"
    by simp
  from main_caption_success [OF assms(2,3,4) tw assms(5)] assms(1) t
  show "fst (main w) = Inr ()"
    and "Draw_text (scaled width 0.02, scaled height 0.05) ''Astronomy Picture of the Day'' Title_font
              \<in> set (snd (main w))"
    by (simp_all add: main_def)
qed

lemma main_fetch_world_bare:
  "main_fetch world_bare =
     (Inr apod_bare,
      [Print (Line (fetching_line ''abcdefghijkl'')),
       UrlOpen (build_apod_url (\<lambda>s. s) ''abcdefghijkl'')])"
  by (simp add: main_fetch_def world_bare_def world_sample_def resolve_api_key_def
        str_strip_def isspace_def str_upper_def to_upper_def fetch_json_def attempts_default
        after_def Let_def)

theorem missing_title_and_explanation_defaults_witness:
  "apod_bare ''title'' = None \<and> apod_bare ''explanation'' = None \<and>
   fst (main world_bare) = Inr () \<and>
   Draw_text (20, 40) ''Astronomy Picture of the Day'' Title_font \<in> set (snd (main world_bare)) \<and>
   Draw_text (50, 88) [] Desc_font \<in> set (snd (main world_bare))"
proof -
  have p: "pick_image_url apod_bare = Some ''U''"
    by (simp add: apod_bare_def pick_image_url_def py_or_def)
  have o: "open_image world_bare ''U'' = Inr (1000, 800)"
    by (simp add: world_bare_def world_sample_def)
  have s: "save_failure world_bare (out_path world_bare) = None"
    by (simp add: world_bare_def world_sample_def)
  have t: "apod_bare ''title'' = None" "apod_bare ''explanation'' = None"
    by (simp_all add: apod_bare_def)
  have sc: "scaled 1000 0.02 = 20" "scaled 800 0.05 = 40" "scaled 1000 0.05 = 50" "scaled 800 0.11 = 88"
    by (simp_all add: scaled_def)
  from missing_title_and_explanation_defaults [OF main_fetch_world_bare p _ o s, of "[]"] t sc
  show ?thesis by (simp add: text_wrap_empty)
qed

end
